theory Spec2Isabelle
  imports Main "HOL-Library.Word"
begin

section \<open>Error values (internal/types/error.go)\<close>

text \<open>
  \<open>ErrorCode\<close> is a Go string type; the constants are the string literals of the source.
\<close>

type_synonym ErrorCode = string

definition InternalServiceError :: ErrorCode where
  "InternalServiceError = ''INTERNAL_SERVICE_ERROR''"

definition ValidationError :: ErrorCode where
  "ValidationError = ''VALIDATION_ERROR''"

text \<open>The two \<open>net/http\<close> status constants the file uses.\<close>

definition StatusInternalServerError :: int where
  "StatusInternalServerError = 500"

definition StatusBadRequest :: int where
  "StatusBadRequest = 400"

definition UninitializedStatusCode :: int where
  "UninitializedStatusCode = 0"

text \<open>
  The struct \<open>Error\<close>. The wrapped Go \<open>error\<close> is an interface value the functions below
  only store, so its type is a parameter.
\<close>

record 'e Error =
  Err :: 'e
  StatusCode :: int
  ErrorCode :: ErrorCode

definition NewError :: "int \<Rightarrow> ErrorCode \<Rightarrow> 'e \<Rightarrow> 'e Error" where
  "NewError statusCode errorCode err =
     (let statusCode = (if statusCode = UninitializedStatusCode
                        then StatusInternalServerError else statusCode);
          errorCode = (if errorCode = '''' then InternalServiceError else errorCode)
      in \<lparr>Err = err, StatusCode = statusCode, ErrorCode = errorCode\<rparr>)"

definition NewInternalServiceError :: "'e \<Rightarrow> 'e Error" where
  "NewInternalServiceError err =
     \<lparr>Err = err, StatusCode = StatusInternalServerError, ErrorCode = InternalServiceError\<rparr>"

definition NewValidationFailedError :: "'e \<Rightarrow> 'e Error" where
  "NewValidationFailedError err =
     \<lparr>Err = err, StatusCode = StatusBadRequest, ErrorCode = ValidationError\<rparr>"

section \<open>Staking parameters (internal/clients/bbnclient/types.go)\<close>

text \<open>
  \<open>encoding/hex\<close> of the Go standard library: \<open>EncodeToString\<close> writes, for every byte
  \<open>v\<close>, the two characters \<open>hextable[v>>4]\<close> and \<open>hextable[v&0x0f]\<close>.
\<close>

definition hextable :: string where
  "hextable = ''0123456789abcdef''"

fun hex_EncodeToString :: "8 word list \<Rightarrow> string" where
  "hex_EncodeToString [] = []"
| "hex_EncodeToString (v # src) =
     hextable ! unat (drop_bit 4 v) # hextable ! unat (and v 0x0f) # hex_EncodeToString src"

text \<open>
  The chain's parameters, \<open>stakingtypes.Params\<close> of the babylon module: only the fields
  that \<open>FromBbnStakingParams\<close> reads. A covenant key (\<open>bip340.BIP340PubKey\<close>) and the
  slashing script are byte strings. \<open>SlashingRate\<close> and \<open>MinCommissionRate\<close> are
  decimals of the Cosmos SDK (\<open>LegacyDec\<close>), of which only \<open>String()\<close> is used: the type
  is the parameter \<open>'dec\<close> and the rendering is an argument of the conversion.
\<close>

record 'dec Params =
  Params_CovenantPks :: "8 word list list"
  Params_CovenantQuorum :: "32 word"
  Params_MinStakingValueSat :: "64 word"
  Params_MaxStakingValueSat :: "64 word"
  Params_MinStakingTimeBlocks :: "32 word"
  Params_MaxStakingTimeBlocks :: "32 word"
  Params_SlashingPkScript :: "8 word list"
  Params_MinSlashingTxFeeSat :: "64 word"
  Params_SlashingRate :: 'dec
  Params_MinUnbondingTimeBlocks :: "32 word"
  Params_UnbondingFeeSat :: "64 word"
  Params_MinCommissionRate :: 'dec
  Params_MaxActiveFinalityProviders :: "32 word"
  Params_DelegationCreationBaseGasFee :: "64 word"

text \<open>
  \<open>Params.CovenantPksHex\<close> of the babylon module: each covenant key marshalled to hex, in
  the order of the parameter's list.
\<close>

definition CovenantPksHex :: "'dec Params \<Rightarrow> string list" where
  "CovenantPksHex params = map hex_EncodeToString (Params_CovenantPks params)"

record StakingParams =
  CovenantPks :: "string list"
  CovenantQuorum :: "32 word"
  MinStakingValueSat :: "64 word"
  MaxStakingValueSat :: "64 word"
  MinStakingTimeBlocks :: "32 word"
  MaxStakingTimeBlocks :: "32 word"
  SlashingPkScript :: string
  MinSlashingTxFeeSat :: "64 word"
  SlashingRate :: string
  MinUnbondingTimeBlocks :: "32 word"
  UnbondingFeeSat :: "64 word"
  MinCommissionRate :: string
  MaxActiveFinalityProviders :: "32 word"
  DelegationCreationBaseGasFee :: "64 word"

definition FromBbnStakingParams :: "('dec \<Rightarrow> string) \<Rightarrow> 'dec Params \<Rightarrow> StakingParams" where
  "FromBbnStakingParams LegacyDec_String params =
     \<lparr>CovenantPks = CovenantPksHex params,
      CovenantQuorum = Params_CovenantQuorum params,
      MinStakingValueSat = Params_MinStakingValueSat params,
      MaxStakingValueSat = Params_MaxStakingValueSat params,
      MinStakingTimeBlocks = Params_MinStakingTimeBlocks params,
      MaxStakingTimeBlocks = Params_MaxStakingTimeBlocks params,
      SlashingPkScript = hex_EncodeToString (Params_SlashingPkScript params),
      MinSlashingTxFeeSat = Params_MinSlashingTxFeeSat params,
      SlashingRate = LegacyDec_String (Params_SlashingRate params),
      MinUnbondingTimeBlocks = Params_MinUnbondingTimeBlocks params,
      UnbondingFeeSat = Params_UnbondingFeeSat params,
      MinCommissionRate = LegacyDec_String (Params_MinCommissionRate params),
      MaxActiveFinalityProviders = Params_MaxActiveFinalityProviders params,
      DelegationCreationBaseGasFee = Params_DelegationCreationBaseGasFee params\<rparr>"

section \<open>Indexed blocks (internal/types/block.go)\<close>

text \<open>
  A Go runtime panic is a value of the model.
\<close>

datatype panic =
  NilPointerDereference
  | CloseOfClosedChannel
  | NonPositiveTickerInterval

text \<open>
  \<open>wire.MsgBlock\<close> of btcd: a header and the transactions. The functions of this file
  never look inside a header or a transaction, so \<open>'h\<close> stands for \<open>wire.BlockHeader\<close>
  and \<open>'tx\<close> for \<open>*wire.MsgTx\<close>.
\<close>

record ('h, 'tx) MsgBlock =
  Header :: 'h
  Transactions :: "'tx list"

text \<open>
  \<open>btcutil.Tx\<close>: the wrapped transaction and its index in the block (the hashes it
  caches are computed on demand from \<open>msgTx\<close> and are left out). \<open>NewTx\<close> starts with
  \<open>TxIndexUnknown\<close>, \<open>SetIndex\<close> stores an index, \<open>MsgTx\<close> gives the transaction back.
\<close>

record 'tx Tx =
  msgTx :: 'tx
  txIndex :: int

definition TxIndexUnknown :: int where
  "TxIndexUnknown = -1"

definition NewTx :: "'tx \<Rightarrow> 'tx Tx" where
  "NewTx m = \<lparr>msgTx = m, txIndex = TxIndexUnknown\<rparr>"

definition SetIndex :: "'tx Tx \<Rightarrow> int \<Rightarrow> 'tx Tx" where
  "SetIndex t i = t\<lparr>txIndex := i\<rparr>"

definition Tx_MsgTx :: "'tx Tx \<Rightarrow> 'tx" where
  "Tx_MsgTx t = msgTx t"

text \<open>
  Modelled from the spec: \<open>utils.GetWrappedTxs\<close> is code of this repository that is not
  among the sources. The comment on \<open>IndexedBlock\<close> says what an indexed block adds to a
  \<open>wire.MsgBlock\<close>: the height and, for each transaction, its hashes and its index. The
  helper is therefore the loop that wraps every transaction of the block, in order, with
  \<open>btcutil.NewTx\<close> and stores its position with \<open>SetIndex\<close>.
\<close>

fun GetWrappedTxs_from :: "int \<Rightarrow> 'tx list \<Rightarrow> 'tx Tx list" where
  "GetWrappedTxs_from i [] = []"
| "GetWrappedTxs_from i (m # ms) = SetIndex (NewTx m) i # GetWrappedTxs_from (i + 1) ms"

definition GetWrappedTxs :: "('h, 'tx) MsgBlock \<Rightarrow> 'tx Tx list" where
  "GetWrappedTxs msg = GetWrappedTxs_from 0 (Transactions msg)"

text \<open>
  \<open>IndexedBlock\<close>: \<open>Header\<close> is a pointer (\<open>None\<close> is nil), \<open>Height\<close> an \<open>int32\<close>.
\<close>

record ('h, 'tx) IndexedBlock =
  Height :: "32 word"
  IB_Header :: "'h option"
  Txs :: "'tx Tx list"

definition NewIndexedBlock ::
  "32 word \<Rightarrow> 'h option \<Rightarrow> 'tx Tx list \<Rightarrow> ('h, 'tx) IndexedBlock" where
  "NewIndexedBlock height header txs = \<lparr>Height = height, IB_Header = header, Txs = txs\<rparr>"

text \<open>The argument is a pointer: on nil, \<open>&block.Header\<close> panics.\<close>

definition NewIndexedBlockFromMsgBlock ::
  "32 word \<Rightarrow> ('h, 'tx) MsgBlock option \<Rightarrow> panic + ('h, 'tx) IndexedBlock" where
  "NewIndexedBlockFromMsgBlock height block =
     (case block of
        None \<Rightarrow> Inl NilPointerDereference
      | Some b \<Rightarrow> Inr \<lparr>Height = height, IB_Header = Some (Header b), Txs = GetWrappedTxs b\<rparr>)"

text \<open>The loop of \<open>MsgBlock\<close>: \<open>msgTxs\<close> grows by one \<open>append\<close> per wrapped transaction.\<close>

fun MsgBlock_loop :: "'tx list \<Rightarrow> 'tx Tx list \<Rightarrow> 'tx list" where
  "MsgBlock_loop msgTxs [] = msgTxs"
| "MsgBlock_loop msgTxs (tx # txs) = MsgBlock_loop (msgTxs @ [Tx_MsgTx tx]) txs"

definition IndexedBlock_MsgBlock :: "('h, 'tx) IndexedBlock \<Rightarrow> panic + ('h, 'tx) MsgBlock" where
  "IndexedBlock_MsgBlock ib =
     (let msgTxs = MsgBlock_loop [] (Txs ib)
      in case IB_Header ib of
           None \<Rightarrow> Inl NilPointerDereference
         | Some h \<Rightarrow> Inr \<lparr>Header = h, Transactions = msgTxs\<rparr>)"

section \<open>Poller (package poller)\<close>

text \<open>
  The \<open>quit\<close> channel is a \<open>chan struct{}\<close> made by \<open>NewPoller\<close>. Nothing is ever sent
  on it; the only operation besides the receive in \<open>Start\<close> is the \<open>close\<close> in \<open>Stop\<close>. So
  its state is open or closed: a receive on the open channel blocks, a receive on the
  closed channel succeeds at once, and closing a closed channel panics.
\<close>

datatype chan = Open | Closed

definition close_chan :: "chan \<Rightarrow> panic + chan" where
  "close_chan c = (case c of Open \<Rightarrow> Inr Closed | Closed \<Rightarrow> Inl CloseOfClosedChannel)"

definition recv_ready :: "chan \<Rightarrow> bool" where
  "recv_ready c = (c = Closed)"

text \<open>
  The struct \<open>Poller\<close>. \<open>interval\<close> is a \<open>time.Duration\<close>. \<open>pollMethod\<close> returns a
  \<open>*types.Error\<close> (\<open>None\<close> is nil) and may change the world it works on, the state \<open>'w\<close>.
\<close>

record ('w, 'x) Poller =
  interval :: int
  quit :: chan
  pollMethod :: "'w \<Rightarrow> 'x Error option \<times> 'w"

definition NewPoller :: "int \<Rightarrow> ('w \<Rightarrow> 'x Error option \<times> 'w) \<Rightarrow> ('w, 'x) Poller" where
  "NewPoller i f = \<lparr>interval = i, quit = Open, pollMethod = f\<rparr>"

definition Stop :: "('w, 'x) Poller \<Rightarrow> panic + ('w, 'x) Poller" where
  "Stop p = (case close_chan (quit p) of Inl pn \<Rightarrow> Inl pn | Inr c \<Rightarrow> Inr (p\<lparr>quit := c\<rparr>))"

text \<open>What the logger receives.\<close>

datatype 'x log_entry = LogError "'x Error" string | LogInfo string

text \<open>
  \<open>Start\<close> runs in a goroutine of its own while other goroutines cancel the context or
  call \<open>Stop\<close> on the shared \<open>*Poller\<close>. The state below is that of the whole: the poller,
  whether the context is cancelled, where the call of \<open>Start\<close> stands, whether its ticker
  delivers ticks, the world of the poll function, the log, the number of calls of the
  poll function so far, and the panic that ended the process, if any.
\<close>

datatype call_state = NotStarted | Running | Returned

record ('w, 'x) sys =
  poller :: "('w, 'x) Poller"
  ctx_done :: bool
  start_call :: call_state
  ticker_running :: bool
  world :: 'w
  logs :: "'x log_entry list"
  polls :: nat
  crashed :: "panic option"

definition boot :: "('w, 'x) Poller \<Rightarrow> 'w \<Rightarrow> ('w, 'x) sys" where
  "boot p w = \<lparr>poller = p, ctx_done = False, start_call = NotStarted, ticker_running = False,
     world = w, logs = [], polls = 0, crashed = None\<rparr>"

text \<open>
  The first statement of \<open>Start\<close>: \<open>time.NewTicker\<close> panics on an interval that is not
  positive; otherwise the loop is entered.
\<close>

definition Start_begin :: "('w, 'x) sys \<Rightarrow> ('w, 'x) sys" where
  "Start_begin s =
     (if interval (poller s) \<le> 0 then s\<lparr>crashed := Some NonPositiveTickerInterval\<rparr>
      else s\<lparr>start_call := Running, ticker_running := True\<rparr>)"

text \<open>
  One iteration of the loop of \<open>Start\<close>, for the case its \<open>select\<close> takes. On the
  cancellation path the source returns without stopping the ticker.
\<close>

datatype select_case = CaseTick | CaseCtxDone | CaseQuit

definition Start_select :: "select_case \<Rightarrow> ('w, 'x) sys \<Rightarrow> ('w, 'x) sys" where
  "Start_select c s =
     (case c of
        CaseTick \<Rightarrow>
          (case pollMethod (poller s) (world s) of
             (Some err, w) \<Rightarrow>
               s\<lparr>world := w, polls := polls s + 1,
                 logs := logs s @ [LogError err ''Error polling'']\<rparr>
           | (None, w) \<Rightarrow> s\<lparr>world := w, polls := polls s + 1\<rparr>)
      | CaseCtxDone \<Rightarrow>
          s\<lparr>logs := logs s @ [LogInfo ''Poller stopped due to context cancellation''],
            start_call := Returned\<rparr>
      | CaseQuit \<Rightarrow> s\<lparr>ticker_running := False, start_call := Returned\<rparr>)"

text \<open>A \<open>select\<close> can take a case only when its channel has something to receive.\<close>

definition ready :: "select_case \<Rightarrow> ('w, 'x) sys \<Rightarrow> bool" where
  "ready c s =
     (case c of
        CaseTick \<Rightarrow> ticker_running s
      | CaseCtxDone \<Rightarrow> ctx_done s
      | CaseQuit \<Rightarrow> recv_ready (quit (poller s)))"

text \<open>
  The steps of the whole: \<open>Start\<close> is called (once), its loop does one iteration, some
  goroutine calls \<open>Stop\<close>, the context is cancelled. A step that cannot happen in a state
  is \<open>None\<close>; after a panic nothing happens any more.
\<close>

datatype action = CallStart | Select select_case | CallStop | CancelCtx

definition step :: "action \<Rightarrow> ('w, 'x) sys \<Rightarrow> ('w, 'x) sys option" where
  "step a s =
     (if crashed s \<noteq> None then None
      else case a of
        CallStart \<Rightarrow> if start_call s = NotStarted then Some (Start_begin s) else None
      | Select c \<Rightarrow>
          if start_call s = Running \<and> ready c s then Some (Start_select c s) else None
      | CallStop \<Rightarrow>
          (case Stop (poller s) of
             Inl pn \<Rightarrow> Some (s\<lparr>crashed := Some pn\<rparr>)
           | Inr p \<Rightarrow> Some (s\<lparr>poller := p\<rparr>))
      | CancelCtx \<Rightarrow> Some (s\<lparr>ctx_done := True\<rparr>))"

fun exec :: "action list \<Rightarrow> ('w, 'x) sys \<Rightarrow> ('w, 'x) sys option" where
  "exec [] s = Some s"
| "exec (a # as) s = (case step a s of None \<Rightarrow> None | Some s' \<Rightarrow> exec as s')"

section \<open>Timelock markers (package db)\<close>

text \<open>
  Modelled from the spec: \<open>model.TimeLockDocument\<close> and \<open>model.NewTimeLockDocument\<close> are
  code of this repository that is not among the sources. The marker carries the staking
  transaction hash, the expiry height and the substate it was created with. Its \<open>_id\<close> is
  the staking transaction hash: \<open>DeleteExpiredDelegation\<close> selects a marker by
  \<open>{"_id": stakingTxHashHex}\<close>, and the scan filters on the field \<open>expire_height\<close>.
  \<open>types.DelegationSubState\<close> is a string type.
\<close>

type_synonym DelegationSubState = string

record TimeLockDocument =
  StakingTxHashHex :: string
  ExpireHeight :: "32 word"
  DelegationSubState :: DelegationSubState

definition NewTimeLockDocument ::
  "string \<Rightarrow> 32 word \<Rightarrow> DelegationSubState \<Rightarrow> TimeLockDocument" where
  "NewTimeLockDocument stakingTxHashHex expireHeight subState =
     \<lparr>StakingTxHashHex = stakingTxHashHex, ExpireHeight = expireHeight,
      DelegationSubState = subState\<rparr>"

text \<open>
  The errors the three functions return: what the MongoDB driver reports (a filter it
  cannot encode as BSON, a duplicate \<open>_id\<close>, a command the server refuses, or any other
  failure of the call, such as a lost connection), and the two errors
  \<open>DeleteExpiredDelegation\<close> builds with \<open>fmt.Errorf\<close>.
\<close>

datatype db_error =
  EncodeError string
  | DuplicateKeyError string
  | CommandError string
  | DriverError string
  | FailedToDelete string db_error
  | NoExpiredDelegationFound string

text \<open>
  The database, as far as these functions see it: the documents of the collection
  \<open>model.TimeLockCollection\<close>, listed in the order in which the server answers a query
  that asks for no sort (its natural order), and, for each driver call, the failure it
  meets when the store cannot serve it (\<open>None\<close> when it can).
\<close>

datatype driver_call = CallInsertOne | CallFind | CallCursorAll | CallDeleteOne

record Database =
  TimeLockCollection :: "TimeLockDocument list"
  driver_failure :: "driver_call \<Rightarrow> string option"

text \<open>The two filters the source builds with \<open>bson.M\<close>.\<close>

datatype bson_filter = ExpireHeightLte "64 word" | IdEq string

fun matches :: "bson_filter \<Rightarrow> TimeLockDocument \<Rightarrow> bool" where
  "matches (ExpireHeightLte t) d = (unat (ExpireHeight d) \<le> unat t)"
| "matches (IdEq h) d = (StakingTxHashHex d = h)"

text \<open>
  The driver encodes a filter as BSON before it sends anything. BSON has no unsigned
  64-bit integer: a \<open>uint64\<close> above the largest \<open>int64\<close> cannot be encoded, and the call
  returns the encoder's error.
\<close>

fun encodable :: "bson_filter \<Rightarrow> bool" where
  "encodable (ExpireHeightLte t) = (unat t < 2 ^ 63)"
| "encodable (IdEq h) = True"

text \<open>
  The MongoDB driver. \<open>InsertOne\<close> refuses a document whose \<open>_id\<close> is in the collection.
  \<open>Find\<close> gives the matching documents in the server's natural order, no sort being
  asked for; a limit of 0 is no limit, a positive limit \<open>n\<close> keeps the first \<open>n\<close>, and a
  negative limit \<open>n\<close> is sent as \<open>-n\<close> (one batch). Negation of an \<open>int64\<close> leaves
  \<open>-2^63\<close> as it is, a negative limit, which the server refuses. \<open>DeleteOne\<close> removes the
  first matching document and reports how many it removed.
\<close>

definition InsertOne :: "Database \<Rightarrow> TimeLockDocument \<Rightarrow> db_error option \<times> Database" where
  "InsertOne db doc =
     (case driver_failure db CallInsertOne of
        Some m \<Rightarrow> (Some (DriverError m), db)
      | None \<Rightarrow>
          if StakingTxHashHex doc \<in> set (map StakingTxHashHex (TimeLockCollection db))
          then (Some (DuplicateKeyError (StakingTxHashHex doc)), db)
          else (None, db\<lparr>TimeLockCollection := TimeLockCollection db @ [doc]\<rparr>))"

definition SetLimit :: "int \<Rightarrow> 'a list \<Rightarrow> 'a list" where
  "SetLimit n xs = (if n = 0 then xs else if 0 < n then take (nat n) xs else take (nat (- n)) xs)"

definition Find :: "Database \<Rightarrow> bson_filter \<Rightarrow> int \<Rightarrow> db_error + TimeLockDocument list" where
  "Find db f limit =
     (if \<not> encodable f then Inl (EncodeError ''overflows int64'')
      else case driver_failure db CallFind of
        Some m \<Rightarrow> Inl (DriverError m)
      | None \<Rightarrow>
          if limit = - (2 ^ 63) then Inl (CommandError ''limit must be non-negative'')
          else Inr (SetLimit limit (filter (matches f) (TimeLockCollection db))))"

definition cursor_All :: "Database \<Rightarrow> TimeLockDocument list \<Rightarrow> db_error + TimeLockDocument list" where
  "cursor_All db cursor =
     (case driver_failure db CallCursorAll of
        Some m \<Rightarrow> Inl (DriverError m)
      | None \<Rightarrow> Inr cursor)"

fun delete_first :: "('a \<Rightarrow> bool) \<Rightarrow> 'a list \<Rightarrow> 'a list" where
  "delete_first P [] = []"
| "delete_first P (x # xs) = (if P x then xs else x # delete_first P xs)"

definition DeleteOne :: "Database \<Rightarrow> bson_filter \<Rightarrow> (db_error + nat) \<times> Database" where
  "DeleteOne db f =
     (if \<not> encodable f then (Inl (EncodeError ''overflows int64''), db)
      else case driver_failure db CallDeleteOne of
        Some m \<Rightarrow> (Inl (DriverError m), db)
      | None \<Rightarrow>
          if \<exists>d \<in> set (TimeLockCollection db). matches f d
          then (Inr 1, db\<lparr>TimeLockCollection := delete_first (matches f) (TimeLockCollection db)\<rparr>)
          else (Inr 0, db))"

text \<open>The three functions of the source.\<close>

definition SaveNewTimeLockExpire ::
  "Database \<Rightarrow> string \<Rightarrow> 32 word \<Rightarrow> DelegationSubState \<Rightarrow> db_error option \<times> Database" where
  "SaveNewTimeLockExpire db stakingTxHashHex expireHeight subState =
     (let tlDoc = NewTimeLockDocument stakingTxHashHex expireHeight subState
      in InsertOne db tlDoc)"

text \<open>\<open>int64(limit)\<close> reads the 64 bits of the unsigned limit as a signed number.\<close>

definition FindExpiredDelegations ::
  "Database \<Rightarrow> 64 word \<Rightarrow> 64 word \<Rightarrow> db_error + TimeLockDocument list" where
  "FindExpiredDelegations db btcTipHeight limit =
     (case Find db (ExpireHeightLte btcTipHeight) (sint limit) of
        Inl err \<Rightarrow> Inl err
      | Inr cursor \<Rightarrow>
          (case cursor_All db cursor of
             Inl err \<Rightarrow> Inl err
           | Inr delegations \<Rightarrow> Inr delegations))"

definition DeleteExpiredDelegation :: "Database \<Rightarrow> string \<Rightarrow> db_error option \<times> Database" where
  "DeleteExpiredDelegation db stakingTxHashHex =
     (case DeleteOne db (IdEq stakingTxHashHex) of
        (Inl err, db') \<Rightarrow> (Some (FailedToDelete stakingTxHashHex err), db')
      | (Inr DeletedCount, db') \<Rightarrow>
          if DeletedCount = 0 then (Some (NoExpiredDelegationFound stakingTxHashHex), db')
          else (None, db'))"

section \<open>Conditional state update of a delegation\<close>

text \<open>
  The states of a delegation and the delegation record, as section 3 and section 4.1 of the
  specification give them.
\<close>

datatype DelegationState =
  PENDING | VERIFIED | ACTIVE | UNBONDING | UNBONDED | WITHDRAWN | SLASHED

record DelegationRecord =
  stakingTxHash :: string
  state :: DelegationState
  subState :: "DelegationSubState option"
  covenantSignatures :: "(string \<times> string) list"
  expiryHeight :: "32 word option"
  finalityProviderKeys :: "string list"

datatype UpdateResult = Applied | PreconditionFailed

text \<open>
  Modelled from the spec: the sources hold only the declaration of
  \<open>UpdateBTCDelegationState\<close> in \<open>DbInterface\<close>; the method of \<open>Database\<close> is missing. The
  specification gives it as \<open>conditionalUpdateState(hash, fromStates, toState, toSubState)
  -> Applied | PreconditionFailed\<close>, a conditional update "set state=next where state
  \<in> qualifiedSet" on the record stored under the hash. The new substate is a pointer in
  the declaration: nil leaves the stored substate as it is. A hash with no record
  satisfies no precondition.
\<close>

definition UpdateBTCDelegationState ::
  "(string \<rightharpoonup> DelegationRecord) \<Rightarrow> string \<Rightarrow> DelegationState list \<Rightarrow> DelegationState \<Rightarrow>
   DelegationSubState option \<Rightarrow> UpdateResult \<times> (string \<rightharpoonup> DelegationRecord)" where
  "UpdateBTCDelegationState store stakingTxHash' qualifiedPreviousStates newState newSubState =
     (case store stakingTxHash' of
        None \<Rightarrow> (PreconditionFailed, store)
      | Some r \<Rightarrow>
          if state r \<in> set qualifiedPreviousStates
          then (Applied,
                store(stakingTxHash' \<mapsto>
                  r\<lparr>state := newState,
                    subState := (case newSubState of None \<Rightarrow> subState r | Some ss \<Rightarrow> Some ss)\<rparr>))
          else (PreconditionFailed, store))"

section \<open>Example values\<close>

text \<open>
  A value of the chain's parameters (the decimals already rendered), a store that serves
  every call, a store that cannot be reached, a poll function that fails on every call,
  and a pending delegation.
\<close>

definition example_params :: "string Params" where
  "example_params =
     \<lparr>Params_CovenantPks = [[0x02, 0xab], [0xff, 0x10]], Params_CovenantQuorum = 2,
      Params_MinStakingValueSat = 10000, Params_MaxStakingValueSat = 1000000,
      Params_MinStakingTimeBlocks = 64000, Params_MaxStakingTimeBlocks = 65535,
      Params_SlashingPkScript = [0x6a], Params_MinSlashingTxFeeSat = 1000,
      Params_SlashingRate = ''0.100000000000000000'', Params_MinUnbondingTimeBlocks = 1008,
      Params_UnbondingFeeSat = 500, Params_MinCommissionRate = ''0.030000000000000000'',
      Params_MaxActiveFinalityProviders = 100,
      Params_DelegationCreationBaseGasFee = 1000\<rparr>"

definition healthy :: "driver_call \<Rightarrow> string option" where
  "healthy c = None"

definition unreachable :: "driver_call \<Rightarrow> string option" where
  "unreachable c = Some ''connection refused''"

definition failing_poll :: "nat \<Rightarrow> string Error option \<times> nat" where
  "failing_poll w = (Some (NewInternalServiceError ''store unavailable''), Suc w)"

definition example_delegation :: DelegationRecord where
  "example_delegation =
     \<lparr>stakingTxHash = ''aa'', state = PENDING, subState = None, covenantSignatures = [],
      expiryHeight = None, finalityProviderKeys = [''fp1'']\<rparr>"

section \<open>Properties of the error constructors\<close>

text \<open>
  C8: for every status code \<open>s\<close>, error code \<open>c\<close> and underlying error \<open>e\<close>,
  \<open>NewError s c e\<close> has status code 500 when \<open>s = 0\<close> and \<open>s\<close> otherwise, error code
  \<open>INTERNAL_SERVICE_ERROR\<close> when \<open>c\<close> is the empty string and \<open>c\<close> otherwise, and
  carries \<open>e\<close> unchanged.
\<close>

theorem NewError_defaults:
  "StatusCode (NewError s c e) = (if s = 0 then 500 else s) \<and>
   ErrorCode (NewError s c e) = (if c = '''' then ''INTERNAL_SERVICE_ERROR'' else c) \<and>
   Err (NewError s c e) = e"
  by (simp add: NewError_def UninitializedStatusCode_def StatusInternalServerError_def
      InternalServiceError_def)

theorem NewError_defaults_witness:
  "StatusCode (NewError 0 '''' (''boom'')) = 500 \<and>
   ErrorCode (NewError 0 '''' (''boom'')) = ''INTERNAL_SERVICE_ERROR'' \<and>
   Err (NewError 0 '''' (''boom'')) = ''boom'' \<and>
   StatusCode (NewError 404 ''NOT_FOUND'' (''gone'')) = 404 \<and>
   ErrorCode (NewError 404 ''NOT_FOUND'' (''gone'')) = ''NOT_FOUND''"
  using NewError_defaults [of 0 "''''" "''boom''"]
    NewError_defaults [of 404 "''NOT_FOUND''" "''gone''"]
  by simp

section \<open>Properties of the staking parameters\<close>

lemma hextable_nth_inj:
  assumes "i < 16" and "j < 16" and "hextable ! i = hextable ! j"
  shows "i = j"
proof -
  have d: "distinct hextable" by (simp add: hextable_def)
  have l: "length hextable = 16" by (simp add: hextable_def)
  from assms d l show ?thesis by (simp add: nth_eq_iff_index_eq)
qed

lemma hi_nibble_bound: "unat (drop_bit 4 (v :: 8 word)) < 16"
proof -
  have "unat (drop_bit 4 v) = drop_bit 4 (unat v)"
    by (rule unat_drop_bit_eq)
  then have "unat (drop_bit 4 v) = unat v div 2 ^ 4"
    by (simp only: drop_bit_eq_div)
  moreover have "unat v < 2 ^ 8" using unsigned_less [of v] by simp
  ultimately show ?thesis by (simp add: less_mult_imp_div_less)
qed

lemma lo_nibble_bound: "unat (and (v :: 8 word) 0x0f) < 16"
proof -
  have "and v 0x0f = take_bit 4 v"
    by (simp add: take_bit_eq_mask mask_eq_exp_minus_1)
  then have "unat (and v 0x0f) = take_bit 4 (unat v)"
    by (simp only: unsigned_take_bit_eq)
  then have "unat (and v 0x0f) = unat v mod 2 ^ 4"
    by (simp only: take_bit_eq_mod)
  then show ?thesis by simp
qed

lemma byte_from_nibbles:
  fixes v w :: "8 word"
  assumes "drop_bit 4 v = drop_bit 4 w" and "and v 0x0f = and w 0x0f"
  shows "v = w"
proof -
  have m: "and x 0x0f = take_bit 4 x" for x :: "8 word"
    by (simp add: take_bit_eq_mask mask_eq_exp_minus_1)
  have "v = push_bit 4 (drop_bit 4 v) + take_bit 4 v"
    by (simp add: bits_ident)
  also have "\<dots> = push_bit 4 (drop_bit 4 w) + take_bit 4 w"
    using assms by (simp add: m)
  also have "\<dots> = w" by (simp add: bits_ident)
  finally show ?thesis .
qed

lemma hex_EncodeToString_eqD:
  "hex_EncodeToString vs = hex_EncodeToString ws \<Longrightarrow> vs = ws"
proof (induction vs arbitrary: ws)
  case Nil
  then show ?case by (cases ws) simp_all
next
  case (Cons v vs)
  then obtain w ws' where ws: "ws = w # ws'" by (cases ws) auto
  from Cons.prems ws have
    hi: "hextable ! unat (drop_bit 4 v) = hextable ! unat (drop_bit 4 w)" and
    lo: "hextable ! unat (and v 0x0f) = hextable ! unat (and w 0x0f)" and
    tl: "hex_EncodeToString vs = hex_EncodeToString ws'"
    by simp_all
  have "unat (drop_bit 4 v) = unat (drop_bit 4 w)"
    by (rule hextable_nth_inj [OF hi_nibble_bound hi_nibble_bound hi])
  moreover have "unat (and v 0x0f) = unat (and w 0x0f)"
    by (rule hextable_nth_inj [OF lo_nibble_bound lo_nibble_bound lo])
  ultimately have "drop_bit 4 v = drop_bit 4 w" and "and v 0x0f = and w 0x0f"
    by (simp_all only: word_unat_eq_iff)
  then have "v = w"
    by (rule byte_from_nibbles)
  with Cons.IH [OF tl] ws show ?case by simp
qed

lemma hex_EncodeToString_inj: "inj hex_EncodeToString"
  by (rule injI) (rule hex_EncodeToString_eqD)

text \<open>
  C7: for every value of the chain's staking parameters, the snapshot built by
  \<open>FromBbnStakingParams\<close> has the covenant quorum and the minimum and maximum staking
  time of the input, unchanged, and its covenant keys are the covenant keys of the input
  in the same order, each written in hex. Hex encoding loses nothing: two inputs give the
  same keys in the snapshot exactly when their covenant keys are the same.
\<close>

theorem FromBbnStakingParams_keeps_covenant_and_timelock:
  "CovenantQuorum (FromBbnStakingParams str params) = Params_CovenantQuorum params \<and>
   MinStakingTimeBlocks (FromBbnStakingParams str params) = Params_MinStakingTimeBlocks params \<and>
   MaxStakingTimeBlocks (FromBbnStakingParams str params) = Params_MaxStakingTimeBlocks params \<and>
   CovenantPks (FromBbnStakingParams str params) =
     map hex_EncodeToString (Params_CovenantPks params) \<and>
   (CovenantPks (FromBbnStakingParams str params) = CovenantPks (FromBbnStakingParams str' params')
      \<longleftrightarrow> Params_CovenantPks params = Params_CovenantPks params')"
  by (simp add: FromBbnStakingParams_def CovenantPksHex_def
      inj_map_eq_map [OF hex_EncodeToString_inj])

theorem FromBbnStakingParams_keeps_covenant_and_timelock_witness:
  "CovenantQuorum (FromBbnStakingParams id example_params) = 2 \<and>
   MinStakingTimeBlocks (FromBbnStakingParams id example_params) = 64000 \<and>
   MaxStakingTimeBlocks (FromBbnStakingParams id example_params) = 65535 \<and>
   CovenantPks (FromBbnStakingParams id example_params) = [''02ab'', ''ff10'']"
  using FromBbnStakingParams_keeps_covenant_and_timelock
    [of id example_params id example_params]
  by (simp add: example_params_def hextable_def)

section \<open>Properties of indexed blocks\<close>

lemma MsgBlock_loop_eq: "MsgBlock_loop acc txs = acc @ map Tx_MsgTx txs"
  by (induction txs arbitrary: acc) simp_all

lemma GetWrappedTxs_from_MsgTx: "map Tx_MsgTx (GetWrappedTxs_from i ms) = ms"
  by (induction ms arbitrary: i) (simp_all add: Tx_MsgTx_def SetIndex_def NewTx_def)

text \<open>
  C9: for every height \<open>h\<close> and every wire block \<open>b\<close>, building the indexed block from \<open>b\<close>
  and turning it back with \<open>MsgBlock\<close> gives a block with the header and the transaction
  sequence of \<open>b\<close>: the round trip is the identity, and neither step panics.
\<close>

theorem IndexedBlock_MsgBlock_round_trip:
  "(case NewIndexedBlockFromMsgBlock h (Some b) of
      Inl pn \<Rightarrow> Inl pn
    | Inr ib \<Rightarrow> IndexedBlock_MsgBlock ib) = Inr b"
  by (simp add: NewIndexedBlockFromMsgBlock_def IndexedBlock_MsgBlock_def MsgBlock_loop_eq
      GetWrappedTxs_def GetWrappedTxs_from_MsgTx)

theorem IndexedBlock_MsgBlock_round_trip_witness:
  "NewIndexedBlockFromMsgBlock 840000 (Some \<lparr>Header = ''hdr'', Transactions = [''coinbase'', ''tx1'']\<rparr>) =
     Inr \<lparr>Height = 840000, IB_Header = Some ''hdr'',
          Txs = [\<lparr>msgTx = ''coinbase'', txIndex = 0\<rparr>, \<lparr>msgTx = ''tx1'', txIndex = 1\<rparr>]\<rparr> \<and>
   IndexedBlock_MsgBlock \<lparr>Height = 840000, IB_Header = Some ''hdr'',
          Txs = [\<lparr>msgTx = ''coinbase'', txIndex = 0\<rparr>, \<lparr>msgTx = ''tx1'', txIndex = 1\<rparr>]\<rparr> =
     Inr \<lparr>Header = ''hdr'', Transactions = [''coinbase'', ''tx1'']\<rparr>"
  using IndexedBlock_MsgBlock_round_trip [of 840000
      "\<lparr>Header = ''hdr'', Transactions = [''coinbase'', ''tx1'']\<rparr>"]
  by (simp add: NewIndexedBlockFromMsgBlock_def GetWrappedTxs_def SetIndex_def NewTx_def)

section \<open>Properties of the poller\<close>

lemma step_tick:
  assumes "start_call s = Running" and "crashed s = None" and "ticker_running s"
  shows "\<exists>s'. step (Select CaseTick) s = Some s' \<and> start_call s' = Running \<and>
           crashed s' = None \<and> ticker_running s' \<and> poller s' = poller s \<and>
           ctx_done s' = ctx_done s \<and> polls s' = polls s + 1 \<and>
           world s' = snd (pollMethod (poller s) (world s)) \<and>
           logs s' = logs s @ (case fst (pollMethod (poller s) (world s)) of
                                 Some err \<Rightarrow> [LogError err ''Error polling''] | None \<Rightarrow> [])"
  using assms
  by (cases "pollMethod (poller s) (world s)")
     (auto simp: step_def ready_def Start_select_def split: option.splits)

lemma exec_ticks:
  assumes "start_call s = Running" and "crashed s = None" and "ticker_running s"
  shows "\<exists>s'. exec (replicate n (Select CaseTick)) s = Some s' \<and> start_call s' = Running \<and>
           crashed s' = None \<and> ticker_running s' \<and> polls s' = polls s + n"
  using assms
proof (induction n arbitrary: s)
  case 0
  then show ?case by simp
next
  case (Suc n)
  from step_tick [OF Suc.prems] obtain s1 where
    s1: "step (Select CaseTick) s = Some s1" "start_call s1 = Running" "crashed s1 = None"
      "ticker_running s1" "polls s1 = polls s + 1"
    by blast
  from Suc.IH [OF s1(2) s1(3) s1(4)] obtain s' where
    "exec (replicate n (Select CaseTick)) s1 = Some s'" "start_call s' = Running"
    "crashed s' = None" "ticker_running s'" "polls s' = polls s1 + n"
    by blast
  with s1 show ?case by simp
qed

lemma step_Returned:
  assumes "step a s = Some s'" and "start_call s = Running" and "start_call s' = Returned"
  shows "ctx_done s \<or> quit (poller s) = Closed"
  using assms
  by (cases a)
     (auto simp: step_def ready_def recv_ready_def Start_select_def Start_begin_def
       split: if_splits select_case.splits option.splits prod.splits sum.splits)

lemma step_Running:
  assumes "step a s = Some s'" and "start_call s = Running" and "start_call s' \<noteq> Returned"
  shows "start_call s' = Running \<and> (ctx_done s' \<longrightarrow> ctx_done s \<or> a = CancelCtx) \<and>
         (quit (poller s') = Closed \<longrightarrow> quit (poller s) = Closed \<or> a = CallStop)"
  using assms
  by (cases a)
     (auto simp: step_def ready_def recv_ready_def Start_select_def Start_begin_def Stop_def
       close_chan_def
       split: if_splits select_case.splits option.splits prod.splits sum.splits chan.splits)

lemma exec_Returned:
  assumes "exec acts s = Some t" and "start_call s = Running" and "start_call t = Returned"
  shows "ctx_done s \<or> quit (poller s) = Closed \<or> CancelCtx \<in> set acts \<or> CallStop \<in> set acts"
  using assms
proof (induction acts arbitrary: s)
  case Nil
  then show ?case by simp
next
  case (Cons a acts)
  from Cons.prems(1) obtain s1 where s1: "step a s = Some s1" "exec acts s1 = Some t"
    by (auto split: option.splits)
  show ?case
  proof (cases "start_call s1 = Returned")
    case True
    with step_Returned [OF s1(1) Cons.prems(2)] show ?thesis by blast
  next
    case False
    from step_Running [OF s1(1) Cons.prems(2) False] have
      r: "start_call s1 = Running" and
      c: "ctx_done s1 \<longrightarrow> ctx_done s \<or> a = CancelCtx" and
      q: "quit (poller s1) = Closed \<longrightarrow> quit (poller s) = Closed \<or> a = CallStop"
      by blast+
    from Cons.IH [OF s1(2) r Cons.prems(3)] c q show ?thesis by auto
  qed
qed

lemma Stop_open: "quit p = Open \<Longrightarrow> Stop p = Inr (p\<lparr>quit := Closed\<rparr>)"
  by (simp add: Stop_def close_chan_def)

lemma Stop_closed: "quit p = Closed \<Longrightarrow> Stop p = Inl CloseOfClosedChannel"
  by (simp add: Stop_def close_chan_def)

lemma Stop_result: "Stop p = Inr p' \<Longrightarrow> quit p = Open \<and> p' = p\<lparr>quit := Closed\<rparr>"
  by (cases "quit p") (auto simp: Stop_def close_chan_def)

text \<open>
  C6: take any poll function and a running loop of \<open>Start\<close> (ticker delivering, no panic).
  A tick makes the loop call the poll function; an error it returns is logged as
  "Error polling" and the loop is still running afterwards. So after any number \<open>n\<close> of
  ticks the loop is still running and has called the poll function \<open>n\<close> more times,
  whatever those calls returned. The loop returns only when the context is cancelled or
  \<open>Stop\<close> has closed the quit channel: if \<open>Start\<close> has returned after a sequence of steps,
  the context was cancelled or the channel closed at the beginning, or a cancellation or a
  call of \<open>Stop\<close> is among the steps.
\<close>

theorem poll_error_logged_loop_continues:
  assumes "start_call s = Running" and "crashed s = None" and "ticker_running s"
  shows "(\<exists>s'. step (Select CaseTick) s = Some s' \<and> start_call s' = Running \<and>
            crashed s' = None \<and> ticker_running s' \<and> polls s' = polls s + 1 \<and>
            logs s' = logs s @ (case fst (pollMethod (poller s) (world s)) of
                                  Some err \<Rightarrow> [LogError err ''Error polling''] | None \<Rightarrow> [])) \<and>
         (\<forall>n. \<exists>s'. exec (replicate n (Select CaseTick)) s = Some s' \<and>
            start_call s' = Running \<and> polls s' = polls s + n) \<and>
         (\<forall>acts t. exec acts s = Some t \<and> start_call t = Returned \<longrightarrow>
            ctx_done s \<or> quit (poller s) = Closed \<or>
            CancelCtx \<in> set acts \<or> CallStop \<in> set acts)"
proof (intro conjI allI impI)
  from step_tick [OF assms]
  show "\<exists>s'. step (Select CaseTick) s = Some s' \<and> start_call s' = Running \<and>
            crashed s' = None \<and> ticker_running s' \<and> polls s' = polls s + 1 \<and>
            logs s' = logs s @ (case fst (pollMethod (poller s) (world s)) of
                                  Some err \<Rightarrow> [LogError err ''Error polling''] | None \<Rightarrow> [])"
    by blast
next
  fix n
  from exec_ticks [OF assms, of n]
  show "\<exists>s'. exec (replicate n (Select CaseTick)) s = Some s' \<and>
            start_call s' = Running \<and> polls s' = polls s + n"
    by blast
next
  fix acts t
  assume "exec acts s = Some t \<and> start_call t = Returned"
  then show "ctx_done s \<or> quit (poller s) = Closed \<or>
            CancelCtx \<in> set acts \<or> CallStop \<in> set acts"
    using exec_Returned [of acts s t] assms(1) by blast
qed

theorem poll_error_logged_loop_continues_witness:
  "exec [CallStart] (boot (NewPoller 5 failing_poll) 0) =
     Some ((boot (NewPoller 5 failing_poll) 0)\<lparr>start_call := Running, ticker_running := True\<rparr>) \<and>
   (\<exists>s'. exec (replicate 3 (Select CaseTick))
            ((boot (NewPoller 5 failing_poll) 0)\<lparr>start_call := Running, ticker_running := True\<rparr>)
          = Some s' \<and> start_call s' = Running \<and> polls s' = 3) \<and>
   (\<exists>t. exec [Select CaseTick, CancelCtx, Select CaseCtxDone]
            ((boot (NewPoller 5 failing_poll) 0)\<lparr>start_call := Running, ticker_running := True\<rparr>)
          = Some t \<and> start_call t = Returned \<and>
          logs t = [LogError (NewInternalServiceError ''store unavailable'') ''Error polling'',
                    LogInfo ''Poller stopped due to context cancellation''])"
proof -
  let ?s = "(boot (NewPoller 5 failing_poll) 0)\<lparr>start_call := Running, ticker_running := True\<rparr>"
  have r: "start_call ?s = Running" by simp
  have c: "crashed ?s = None" by (simp add: boot_def)
  have t: "ticker_running ?s" by simp
  have p: "polls ?s = 0" by (simp add: boot_def)
  have b: "exec [CallStart] (boot (NewPoller 5 failing_poll) 0) = Some ?s"
    by (simp add: step_def boot_def Start_begin_def NewPoller_def)
  have e: "\<exists>t. exec [Select CaseTick, CancelCtx, Select CaseCtxDone] ?s = Some t \<and>
      start_call t = Returned \<and>
      logs t = [LogError (NewInternalServiceError ''store unavailable'') ''Error polling'',
                LogInfo ''Poller stopped due to context cancellation'']"
    by (simp add: step_def ready_def Start_select_def boot_def NewPoller_def failing_poll_def)
  from poll_error_logged_loop_continues [OF r c t] have
    "\<exists>s'. exec (replicate 3 (Select CaseTick)) ?s = Some s' \<and> start_call s' = Running \<and>
       polls s' = polls ?s + 3"
    by blast
  with p b e show ?thesis by simp
qed

text \<open>
  C10: \<open>Stop\<close> is not idempotent. On a poller fresh from \<open>NewPoller\<close> the first call closes
  the quit channel; on the poller it leaves, and on any poller whose quit channel is
  closed, a further call panics with "close of closed channel". For a running loop of
  \<open>Start\<close> whose quit channel is open: the \<open>select\<close> cannot take the quit case; after one
  call of \<open>Stop\<close> it can, and taking it makes \<open>Start\<close> return; two calls of \<open>Stop\<close> in a
  row end in the panic.
\<close>

theorem Stop_second_call_panics:
  "Stop (NewPoller i f) = Inr ((NewPoller i f)\<lparr>quit := Closed\<rparr>) \<and>
   Stop ((NewPoller i f)\<lparr>quit := Closed\<rparr>) = Inl CloseOfClosedChannel \<and>
   (\<forall>p p'. Stop p = Inr p' \<longrightarrow> quit p' = Closed \<and> Stop p' = Inl CloseOfClosedChannel) \<and>
   (\<forall>s. start_call s = Running \<and> crashed s = None \<and> quit (poller s) = Open \<longrightarrow>
      step (Select CaseQuit) s = None \<and>
      (\<exists>s1 s2. step CallStop s = Some s1 \<and> crashed s1 = None \<and>
         step (Select CaseQuit) s1 = Some s2 \<and> start_call s2 = Returned) \<and>
      (\<exists>s3. exec [CallStop, CallStop] s = Some s3 \<and> crashed s3 = Some CloseOfClosedChannel))"
  by (auto simp: Stop_open Stop_closed NewPoller_def step_def ready_def recv_ready_def
      Start_select_def dest: Stop_result)

theorem Stop_second_call_panics_witness:
  "Stop (NewPoller 5 failing_poll) = Inr \<lparr>interval = 5, quit = Closed, pollMethod = failing_poll\<rparr> \<and>
   Stop \<lparr>interval = 5, quit = Closed, pollMethod = failing_poll\<rparr> = Inl CloseOfClosedChannel \<and>
   (\<exists>s3. exec [CallStop, CallStop]
            ((boot (NewPoller 5 failing_poll) 0)\<lparr>start_call := Running, ticker_running := True\<rparr>)
          = Some s3 \<and> crashed s3 = Some CloseOfClosedChannel)"
proof -
  let ?s = "(boot (NewPoller 5 failing_poll) 0)\<lparr>start_call := Running, ticker_running := True\<rparr>"
  have h: "start_call ?s = Running \<and> crashed ?s = None \<and> quit (poller ?s) = Open"
    by (simp add: boot_def NewPoller_def)
  from Stop_second_call_panics [of 5 failing_poll] have
    1: "Stop (NewPoller 5 failing_poll) = Inr ((NewPoller 5 failing_poll)\<lparr>quit := Closed\<rparr>) \<and>
     Stop ((NewPoller 5 failing_poll)\<lparr>quit := Closed\<rparr>) = Inl CloseOfClosedChannel"
    and 2: "\<forall>s :: (nat, string) sys.
      start_call s = Running \<and> crashed s = None \<and> quit (poller s) = Open \<longrightarrow>
      (\<exists>s3. exec [CallStop, CallStop] s = Some s3 \<and> crashed s3 = Some CloseOfClosedChannel)"
    by blast+
  from 2 h have "\<exists>s3. exec [CallStop, CallStop] ?s = Some s3 \<and>
      crashed s3 = Some CloseOfClosedChannel"
    by blast
  with 1 show ?thesis by (simp add: NewPoller_def)
qed

section \<open>Properties of the timelock markers\<close>

lemma sint_cases:
  fixes L :: "64 word"
  shows "sint L = uint L \<or> sint L = uint L - 2 ^ 64"
proof -
  have "take_bit 64 (uint L) = uint L"
    using uint_lt2p [of L] by (simp add: take_bit_int_eq_self)
  then show ?thesis
    by (cases "bit (uint L) 63") (simp_all add: sint_uint signed_take_bit_eq_take_bit_minus)
qed

lemma sint_limit_bound:
  fixes L :: "64 word"
  shows "(if 0 < sint L then nat (sint L) else nat (- sint L)) \<le> unat L"
proof -
  have lo: "- (2 ^ 63) \<le> sint L" using sint_ge [of L] by simp
  have hi: "sint L < 2 ^ 63" using sint_lt [of L] by simp
  have u0: "0 \<le> uint L" by simp
  have u1: "uint L < 2 ^ 64" using uint_lt2p [of L] by simp
  from sint_cases [of L] lo hi u0 u1 have "(if 0 < sint L then sint L else - sint L) \<le> uint L"
    by auto
  then have "nat (if 0 < sint L then sint L else - sint L) \<le> nat (uint L)"
    by (rule nat_mono)
  then show ?thesis by (simp only: unat_eq_nat_uint if_distrib [of nat])
qed






lemma matches_ExpireHeightLte:
  "matches (ExpireHeightLte T) = (\<lambda>d. unat (ExpireHeight d) \<le> unat T)"
  by (rule ext) simp

lemma SetLimit_take: "\<exists>n. SetLimit k xs = take n xs"
  by (auto simp: SetLimit_def intro: exI [of _ "length xs"])

lemma SetLimit_length:
  "k \<noteq> 0 \<Longrightarrow> length (SetLimit k xs) \<le> (if 0 < k then nat k else nat (- k))"
  by (simp add: SetLimit_def)

lemma SetLimit_all: "k = 0 \<or> (0 < k \<and> length xs \<le> nat k) \<Longrightarrow> SetLimit k xs = xs"
  by (auto simp: SetLimit_def)

lemma FindExpiredDelegations_Inr:
  "FindExpiredDelegations db T L = Inr ds \<Longrightarrow>
   ds = SetLimit (sint L) (filter (matches (ExpireHeightLte T)) (TimeLockCollection db))"
  by (auto simp: FindExpiredDelegations_def Find_def cursor_All_def
      split: option.splits sum.splits if_splits)


lemma delete_first_split:
  assumes "\<exists>x \<in> set xs. P x"
  shows "\<exists>ys x zs. xs = ys @ x # zs \<and> P x \<and> (\<forall>y \<in> set ys. \<not> P y) \<and>
           delete_first P xs = ys @ zs"
  using assms
proof (induction xs)
  case Nil
  then show ?case by simp
next
  case (Cons a xs)
  show ?case
  proof (cases "P a")
    case True
    then have "a # xs = [] @ a # xs \<and> P a \<and> (\<forall>y \<in> set []. \<not> P y) \<and>
        delete_first P (a # xs) = [] @ xs"
      by simp
    then show ?thesis by blast
  next
    case False
    with Cons.prems have "\<exists>x \<in> set xs. P x" by auto
    from Cons.IH [OF this] obtain ys x zs where
      "xs = ys @ x # zs" "P x" "\<forall>y \<in> set ys. \<not> P y" "delete_first P xs = ys @ zs"
      by blast
    with False have "a # xs = (a # ys) @ x # zs \<and> P x \<and> (\<forall>y \<in> set (a # ys). \<not> P y) \<and>
        delete_first P (a # xs) = (a # ys) @ zs"
      by simp
    then show ?thesis by blast
  qed
qed

lemma delete_first_others:
  "filter (\<lambda>x. \<not> P x) (delete_first P xs) = filter (\<lambda>x. \<not> P x) xs"
  by (induction xs) simp_all

lemma delete_first_length:
  "\<exists>x \<in> set xs. P x \<Longrightarrow> Suc (length (delete_first P xs)) = length xs"
  by (induction xs) auto

lemma delete_first_gone:
  "distinct (map f xs) \<Longrightarrow> \<forall>x \<in> set (delete_first (\<lambda>x. f x = k) xs). f x \<noteq> k"
proof (induction xs)
  case Nil
  then show ?case by simp
next
  case (Cons x xs)
  then show ?case by (auto simp: image_iff)
qed




text \<open>
  C5, as stated, fails at limit 0: the driver takes a limit of 0 as no limit, so the
  scan returns both due markers of the collection, more than 0.
\<close>

theorem FindExpiredDelegations_limit_zero_unbounded:
  "FindExpiredDelegations
     \<lparr>TimeLockCollection =
        [\<lparr>StakingTxHashHex = ''bb'', ExpireHeight = 200, DelegationSubState = ''timelock''\<rparr>,
         \<lparr>StakingTxHashHex = ''aa'', ExpireHeight = 100, DelegationSubState = ''timelock''\<rparr>],
      driver_failure = healthy\<rparr> 300 0 =
     Inr [\<lparr>StakingTxHashHex = ''bb'', ExpireHeight = 200, DelegationSubState = ''timelock''\<rparr>,
          \<lparr>StakingTxHashHex = ''aa'', ExpireHeight = 100, DelegationSubState = ''timelock''\<rparr>] \<and>
   \<not> length
     [\<lparr>StakingTxHashHex = ''bb'', ExpireHeight = 200, DelegationSubState = ''timelock''\<rparr>,
      \<lparr>StakingTxHashHex = ''aa'', ExpireHeight = 100, DelegationSubState = ''timelock''\<rparr>]
     \<le> unat (0 :: 64 word)"
  by (simp add: FindExpiredDelegations_def Find_def cursor_All_def SetLimit_def healthy_def)

text \<open>
  C5, amended: for every tip height and every limit \<open>L\<close> other than 0, the scan returns at
  most \<open>L\<close> markers; with limit 0 the store applies no limit and the scan returns every
  due marker.
\<close>

theorem FindExpiredDelegations_at_most_limit:
  assumes "FindExpiredDelegations db T L = Inr ds"
  shows "(L \<noteq> 0 \<longrightarrow> length ds \<le> unat L) \<and>
         (L = 0 \<longrightarrow> ds = filter (\<lambda>d. unat (ExpireHeight d) \<le> unat T) (TimeLockCollection db))"
proof (intro conjI impI)
  let ?due = "filter (matches (ExpireHeightLte T)) (TimeLockCollection db)"
  from assms have ds: "ds = SetLimit (sint L) ?due"
    by (rule FindExpiredDelegations_Inr)
  {
    assume "L \<noteq> 0"
    then have "sint L \<noteq> 0" by (simp add: signed_eq_0_iff)
    then have "length (SetLimit (sint L) ?due) \<le> (if 0 < sint L then nat (sint L) else nat (- sint L))"
      by (rule SetLimit_length)
    also have "\<dots> \<le> unat L" by (rule sint_limit_bound)
    finally show "length ds \<le> unat L" by (simp only: ds)
  }
  {
    assume "L = 0"
    with ds show "ds = filter (\<lambda>d. unat (ExpireHeight d) \<le> unat T) (TimeLockCollection db)"
      by (simp add: SetLimit_def matches_ExpireHeightLte)
  }
qed

theorem FindExpiredDelegations_at_most_limit_witness:
  "FindExpiredDelegations
     \<lparr>TimeLockCollection =
        [\<lparr>StakingTxHashHex = ''bb'', ExpireHeight = 200, DelegationSubState = ''timelock''\<rparr>,
         \<lparr>StakingTxHashHex = ''aa'', ExpireHeight = 100, DelegationSubState = ''timelock''\<rparr>],
      driver_failure = healthy\<rparr> 300 1 =
     Inr [\<lparr>StakingTxHashHex = ''bb'', ExpireHeight = 200, DelegationSubState = ''timelock''\<rparr>] \<and>
   length [\<lparr>StakingTxHashHex = ''bb'', ExpireHeight = 200, DelegationSubState = ''timelock''\<rparr>]
     \<le> unat (1 :: 64 word)"
proof -
  have h: "FindExpiredDelegations
     \<lparr>TimeLockCollection =
        [\<lparr>StakingTxHashHex = ''bb'', ExpireHeight = 200, DelegationSubState = ''timelock''\<rparr>,
         \<lparr>StakingTxHashHex = ''aa'', ExpireHeight = 100, DelegationSubState = ''timelock''\<rparr>],
      driver_failure = healthy\<rparr> 300 1 =
     Inr [\<lparr>StakingTxHashHex = ''bb'', ExpireHeight = 200, DelegationSubState = ''timelock''\<rparr>]"
    by (simp add: FindExpiredDelegations_def Find_def cursor_All_def SetLimit_def healthy_def)
  from FindExpiredDelegations_at_most_limit [OF h] h show ?thesis by simp
qed

text \<open>
  C3, as stated, fails on "deduplicated by exactly that composite key": the key of a
  marker is the staking transaction hash alone. With the marker \<open>(aa, 100, timelock)\<close>
  stored, inserting \<open>(aa, 200, early_unbonding)\<close>, a different (delegation, height,
  substate) triple that is not in the collection, is refused as a duplicate.
\<close>

theorem SaveNewTimeLockExpire_other_triple_refused:
  "NewTimeLockDocument ''aa'' 200 ''early_unbonding'' \<notin> set (TimeLockCollection
     \<lparr>TimeLockCollection =
        [\<lparr>StakingTxHashHex = ''aa'', ExpireHeight = 100, DelegationSubState = ''timelock''\<rparr>],
      driver_failure = healthy\<rparr>) \<and>
   SaveNewTimeLockExpire
     \<lparr>TimeLockCollection =
        [\<lparr>StakingTxHashHex = ''aa'', ExpireHeight = 100, DelegationSubState = ''timelock''\<rparr>],
      driver_failure = healthy\<rparr> ''aa'' 200 ''early_unbonding'' =
     (Some (DuplicateKeyError ''aa''),
      \<lparr>TimeLockCollection =
        [\<lparr>StakingTxHashHex = ''aa'', ExpireHeight = 100, DelegationSubState = ''timelock''\<rparr>],
      driver_failure = healthy\<rparr>)"
  by (simp add: SaveNewTimeLockExpire_def InsertOne_def NewTimeLockDocument_def healthy_def)

text \<open>
  C3, amended: for every (stakingTxHash, expireHeight, subState) triple,
  \<open>SaveNewTimeLockExpire\<close> returns an error and creates no second marker whenever a marker
  with the same staking transaction hash already exists, whatever its height and substate
  (so also when the whole triple is the same); the error is the duplicate-key error unless
  the driver call itself fails. It returns no error exactly when the driver call goes
  through and no marker has that hash, and then the marker is stored. Markers are
  deduplicated by the staking transaction hash, the \<open>_id\<close> of the document, not by the
  composite key: a collection with at most one marker per hash stays so.
\<close>

theorem SaveNewTimeLockExpire_one_marker_per_hash:
  assumes "SaveNewTimeLockExpire db h e s = (err, db')"
  shows "((\<exists>d \<in> set (TimeLockCollection db). StakingTxHashHex d = h) \<longrightarrow>
            err \<noteq> None \<and> db' = db \<and>
            (driver_failure db CallInsertOne = None \<longrightarrow> err = Some (DuplicateKeyError h))) \<and>
         (err = None \<longleftrightarrow>
            driver_failure db CallInsertOne = None \<and>
            (\<forall>d \<in> set (TimeLockCollection db). StakingTxHashHex d \<noteq> h)) \<and>
         (err = None \<longrightarrow>
            db' = db\<lparr>TimeLockCollection :=
                      TimeLockCollection db @ [NewTimeLockDocument h e s]\<rparr>) \<and>
         (err \<noteq> None \<longrightarrow> db' = db) \<and>
         (distinct (map StakingTxHashHex (TimeLockCollection db)) \<longrightarrow>
            distinct (map StakingTxHashHex (TimeLockCollection db')))"
proof (cases "driver_failure db CallInsertOne")
  case (Some m)
  with assms have "err = Some (DriverError m)" and "db' = db"
    by (simp_all add: SaveNewTimeLockExpire_def InsertOne_def)
  with Some show ?thesis by simp
next
  case None
  show ?thesis
  proof (cases "h \<in> StakingTxHashHex ` set (TimeLockCollection db)")
    case True
    with assms None have "err = Some (DuplicateKeyError h)" and "db' = db"
      by (simp_all add: SaveNewTimeLockExpire_def InsertOne_def NewTimeLockDocument_def)
    with True None show ?thesis by auto
  next
    case False
    with assms None have "err = None" and
      "db' = db\<lparr>TimeLockCollection := TimeLockCollection db @ [NewTimeLockDocument h e s]\<rparr>"
      by (simp_all add: SaveNewTimeLockExpire_def InsertOne_def NewTimeLockDocument_def)
    with False None show ?thesis by (auto simp: NewTimeLockDocument_def)
  qed
qed

theorem SaveNewTimeLockExpire_one_marker_per_hash_witness:
  "SaveNewTimeLockExpire
     \<lparr>TimeLockCollection =
        [\<lparr>StakingTxHashHex = ''aa'', ExpireHeight = 100, DelegationSubState = ''timelock''\<rparr>],
      driver_failure = healthy\<rparr> ''aa'' 100 ''timelock'' =
     (Some (DuplicateKeyError ''aa''),
      \<lparr>TimeLockCollection =
        [\<lparr>StakingTxHashHex = ''aa'', ExpireHeight = 100, DelegationSubState = ''timelock''\<rparr>],
      driver_failure = healthy\<rparr>) \<and>
   SaveNewTimeLockExpire
     \<lparr>TimeLockCollection =
        [\<lparr>StakingTxHashHex = ''aa'', ExpireHeight = 100, DelegationSubState = ''timelock''\<rparr>],
      driver_failure = healthy\<rparr> ''bb'' 200 ''timelock'' =
     (None,
      \<lparr>TimeLockCollection =
        [\<lparr>StakingTxHashHex = ''aa'', ExpireHeight = 100, DelegationSubState = ''timelock''\<rparr>,
         \<lparr>StakingTxHashHex = ''bb'', ExpireHeight = 200, DelegationSubState = ''timelock''\<rparr>],
      driver_failure = healthy\<rparr>)"
proof -
  let ?db = "\<lparr>TimeLockCollection =
        [\<lparr>StakingTxHashHex = ''aa'', ExpireHeight = 100, DelegationSubState = ''timelock''\<rparr>],
      driver_failure = healthy\<rparr>"
  have f: "driver_failure ?db CallInsertOne = None" by (simp add: healthy_def)
  have a: "\<exists>d \<in> set (TimeLockCollection ?db). StakingTxHashHex d = ''aa''" by simp
  have b: "\<forall>d \<in> set (TimeLockCollection ?db). StakingTxHashHex d \<noteq> ''bb''" by simp
  have p1: "SaveNewTimeLockExpire ?db ''aa'' 100 ''timelock'' =
      (fst (SaveNewTimeLockExpire ?db ''aa'' 100 ''timelock''),
       snd (SaveNewTimeLockExpire ?db ''aa'' 100 ''timelock''))"
    by simp
  have p2: "SaveNewTimeLockExpire ?db ''bb'' 200 ''timelock'' =
      (fst (SaveNewTimeLockExpire ?db ''bb'' 200 ''timelock''),
       snd (SaveNewTimeLockExpire ?db ''bb'' 200 ''timelock''))"
    by simp
  from SaveNewTimeLockExpire_one_marker_per_hash [OF p1] a f have
    "fst (SaveNewTimeLockExpire ?db ''aa'' 100 ''timelock'') = Some (DuplicateKeyError ''aa'') \<and>
     snd (SaveNewTimeLockExpire ?db ''aa'' 100 ''timelock'') = ?db"
    by blast
  then have 1: "SaveNewTimeLockExpire ?db ''aa'' 100 ''timelock'' =
      (Some (DuplicateKeyError ''aa''), ?db)"
    by (simp add: prod_eq_iff)
  from SaveNewTimeLockExpire_one_marker_per_hash [OF p2] b f have
    "fst (SaveNewTimeLockExpire ?db ''bb'' 200 ''timelock'') = None \<and>
     snd (SaveNewTimeLockExpire ?db ''bb'' 200 ''timelock'') =
       ?db\<lparr>TimeLockCollection :=
             TimeLockCollection ?db @ [NewTimeLockDocument ''bb'' 200 ''timelock'']\<rparr>"
    by blast
  then have 2: "SaveNewTimeLockExpire ?db ''bb'' 200 ''timelock'' =
      (None, ?db\<lparr>TimeLockCollection :=
                  TimeLockCollection ?db @ [NewTimeLockDocument ''bb'' 200 ''timelock'']\<rparr>)"
    by (simp add: prod_eq_iff)
  from 1 2 show ?thesis by (simp add: NewTimeLockDocument_def)
qed

text \<open>
  C4, as stated, fails on "when no marker with that hash exists it returns a not-found
  error": the function returns the not-found error only when the driver's \<open>DeleteOne\<close>
  went through. With no marker \<open>aa\<close> in the collection and a store that cannot be
  reached, it returns the driver's error wrapped as "failed to delete expired delegation",
  which is not the not-found error.
\<close>

theorem DeleteExpiredDelegation_unreachable_not_notfound:
  "''aa'' \<notin> StakingTxHashHex ` set (TimeLockCollection
     \<lparr>TimeLockCollection =
        [\<lparr>StakingTxHashHex = ''bb'', ExpireHeight = 200, DelegationSubState = ''timelock''\<rparr>],
      driver_failure = unreachable\<rparr>) \<and>
   DeleteExpiredDelegation
     \<lparr>TimeLockCollection =
        [\<lparr>StakingTxHashHex = ''bb'', ExpireHeight = 200, DelegationSubState = ''timelock''\<rparr>],
      driver_failure = unreachable\<rparr> ''aa'' =
     (Some (FailedToDelete ''aa'' (DriverError ''connection refused'')),
      \<lparr>TimeLockCollection =
        [\<lparr>StakingTxHashHex = ''bb'', ExpireHeight = 200, DelegationSubState = ''timelock''\<rparr>],
      driver_failure = unreachable\<rparr>) \<and>
   FailedToDelete ''aa'' (DriverError ''connection refused'') \<noteq> NoExpiredDelegationFound ''aa''"
  by (simp add: DeleteExpiredDelegation_def DeleteOne_def unreachable_def)

text \<open>
  C4, amended: for every staking transaction hash, \<open>DeleteExpiredDelegation\<close> returns no
  error exactly when a marker with that hash existed and was deleted, and that is what
  happens whenever the driver call goes through and such a marker exists: the first marker
  with the hash is removed and nothing else changes. When the driver call goes through
  and no marker has that hash, it returns the not-found error ("no expired delegation
  found") and changes nothing. When the driver call itself fails, it returns the driver's
  error wrapped as "failed to delete expired delegation" and changes nothing. Whatever the
  outcome, the markers with any other hash are the same before and after; and where hashes
  are unique, no marker with the hash is left after a successful call.
\<close>

theorem DeleteExpiredDelegation_outcomes:
  assumes "DeleteExpiredDelegation db h = (err, db')"
  shows "(driver_failure db CallDeleteOne = None \<and>
            (\<exists>d \<in> set (TimeLockCollection db). StakingTxHashHex d = h) \<longrightarrow>
            err = None \<and>
            (\<exists>xs d ys. TimeLockCollection db = xs @ d # ys \<and> StakingTxHashHex d = h \<and>
               (\<forall>x \<in> set xs. StakingTxHashHex x \<noteq> h) \<and>
               db' = db\<lparr>TimeLockCollection := xs @ ys\<rparr>)) \<and>
         (driver_failure db CallDeleteOne = None \<and>
            (\<forall>d \<in> set (TimeLockCollection db). StakingTxHashHex d \<noteq> h) \<longrightarrow>
            err = Some (NoExpiredDelegationFound h) \<and> db' = db) \<and>
         (\<forall>m. driver_failure db CallDeleteOne = Some m \<longrightarrow>
            err = Some (FailedToDelete h (DriverError m)) \<and> db' = db) \<and>
         (err = None \<longleftrightarrow>
            (\<exists>d \<in> set (TimeLockCollection db). StakingTxHashHex d = h) \<and>
            Suc (length (TimeLockCollection db')) = length (TimeLockCollection db)) \<and>
         ((\<forall>d \<in> set (TimeLockCollection db). StakingTxHashHex d \<noteq> h) \<longrightarrow>
            err \<noteq> None \<and> db' = db) \<and>
         filter (\<lambda>d. StakingTxHashHex d \<noteq> h) (TimeLockCollection db') =
           filter (\<lambda>d. StakingTxHashHex d \<noteq> h) (TimeLockCollection db) \<and>
         (err = None \<and> distinct (map StakingTxHashHex (TimeLockCollection db)) \<longrightarrow>
            (\<forall>d \<in> set (TimeLockCollection db'). StakingTxHashHex d \<noteq> h))"
proof -
  let ?P = "\<lambda>d. StakingTxHashHex d = h"
  let ?docs = "TimeLockCollection db"
  have mP: "matches (IdEq h) = ?P" by (rule ext) simp
  have failed: "err = Some (FailedToDelete h (DriverError m)) \<and> db' = db"
    if "driver_failure db CallDeleteOne = Some m" for m
    using assms that by (simp add: DeleteExpiredDelegation_def DeleteOne_def)
  have absent: "err = Some (NoExpiredDelegationFound h) \<and> db' = db"
    if "driver_failure db CallDeleteOne = None" and "\<forall>d \<in> set ?docs. \<not> ?P d"
    using assms that by (simp add: DeleteExpiredDelegation_def DeleteOne_def mP)
  have present: "err = None \<and> db' = db\<lparr>TimeLockCollection := delete_first ?P ?docs\<rparr>"
    if "driver_failure db CallDeleteOne = None" and "\<exists>d \<in> set ?docs. ?P d"
    using assms that by (auto simp: DeleteExpiredDelegation_def DeleteOne_def mP)
  have c1: "driver_failure db CallDeleteOne = None \<and> (\<exists>d \<in> set ?docs. ?P d) \<longrightarrow>
      err = None \<and>
      (\<exists>xs d ys. ?docs = xs @ d # ys \<and> StakingTxHashHex d = h \<and>
         (\<forall>x \<in> set xs. StakingTxHashHex x \<noteq> h) \<and>
         db' = db\<lparr>TimeLockCollection := xs @ ys\<rparr>)"
  proof
    assume a: "driver_failure db CallDeleteOne = None \<and> (\<exists>d \<in> set ?docs. ?P d)"
    then have ok: "driver_failure db CallDeleteOne = None" and ex: "\<exists>d \<in> set ?docs. ?P d"
      by blast+
    from present [OF ok ex] have e: "err = None" and
      d': "db' = db\<lparr>TimeLockCollection := delete_first ?P ?docs\<rparr>"
      by blast+
    from delete_first_split [OF ex] obtain xs x ys where
      sp: "?docs = xs @ x # ys" "StakingTxHashHex x = h"
        "\<forall>y \<in> set xs. StakingTxHashHex y \<noteq> h" "delete_first ?P ?docs = xs @ ys"
      by blast
    from sp(4) d' have "db' = db\<lparr>TimeLockCollection := xs @ ys\<rparr>" by (simp only:)
    with sp(1-3) have "?docs = xs @ x # ys \<and> StakingTxHashHex x = h \<and>
        (\<forall>x \<in> set xs. StakingTxHashHex x \<noteq> h) \<and> db' = db\<lparr>TimeLockCollection := xs @ ys\<rparr>"
      by (intro conjI)
    then have "\<exists>xs d ys. ?docs = xs @ d # ys \<and> StakingTxHashHex d = h \<and>
        (\<forall>x \<in> set xs. StakingTxHashHex x \<noteq> h) \<and> db' = db\<lparr>TimeLockCollection := xs @ ys\<rparr>"
      by (intro exI)
    with e show "err = None \<and>
      (\<exists>xs d ys. ?docs = xs @ d # ys \<and> StakingTxHashHex d = h \<and>
         (\<forall>x \<in> set xs. StakingTxHashHex x \<noteq> h) \<and>
         db' = db\<lparr>TimeLockCollection := xs @ ys\<rparr>)"
      by (rule conjI)
  qed
  have c2: "driver_failure db CallDeleteOne = None \<and>
      (\<forall>d \<in> set ?docs. StakingTxHashHex d \<noteq> h) \<longrightarrow>
      err = Some (NoExpiredDelegationFound h) \<and> db' = db"
    using absent by blast
  have c3: "\<forall>m. driver_failure db CallDeleteOne = Some m \<longrightarrow>
      err = Some (FailedToDelete h (DriverError m)) \<and> db' = db"
    using failed by blast
  have c4: "err = None \<longleftrightarrow>
      (\<exists>d \<in> set ?docs. StakingTxHashHex d = h) \<and>
      Suc (length (TimeLockCollection db')) = length ?docs"
  proof (cases "driver_failure db CallDeleteOne")
    case (Some m)
    from failed [OF Some] show ?thesis by simp
  next
    case None
    show ?thesis
    proof (cases "\<exists>d \<in> set ?docs. ?P d")
      case True
      from present [OF None True] delete_first_length [OF True] True
      show ?thesis by simp
    next
      case False
      then have "\<forall>d \<in> set ?docs. \<not> ?P d" by blast
      from absent [OF None this] False show ?thesis by simp
    qed
  qed
  have c5: "(\<forall>d \<in> set ?docs. StakingTxHashHex d \<noteq> h) \<longrightarrow> err \<noteq> None \<and> db' = db"
  proof (cases "driver_failure db CallDeleteOne")
    case (Some m)
    from failed [OF Some] show ?thesis by simp
  next
    case None
    show ?thesis
    proof
      assume "\<forall>d \<in> set ?docs. StakingTxHashHex d \<noteq> h"
      from absent [OF None this] show "err \<noteq> None \<and> db' = db" by simp
    qed
  qed
  have c6: "filter (\<lambda>d. StakingTxHashHex d \<noteq> h) (TimeLockCollection db') =
      filter (\<lambda>d. StakingTxHashHex d \<noteq> h) ?docs"
  proof (cases "driver_failure db CallDeleteOne = None \<and> (\<exists>d \<in> set ?docs. ?P d)")
    case True
    then have "TimeLockCollection db' = delete_first ?P ?docs"
      using present by simp
    then show ?thesis using delete_first_others [of ?P ?docs] by (simp only:)
  next
    case False
    then have "db' = db" using c3 c5 by (cases "driver_failure db CallDeleteOne") auto
    then show ?thesis by (simp only:)
  qed
  have c7: "err = None \<and> distinct (map StakingTxHashHex ?docs) \<longrightarrow>
      (\<forall>d \<in> set (TimeLockCollection db'). StakingTxHashHex d \<noteq> h)"
  proof
    assume a: "err = None \<and> distinct (map StakingTxHashHex ?docs)"
    then have e: "err = None" and di: "distinct (map StakingTxHashHex ?docs)" by blast+
    from e c4 have ex: "\<exists>d \<in> set ?docs. ?P d" by blast
    from e c3 have ok: "driver_failure db CallDeleteOne = None"
      by (cases "driver_failure db CallDeleteOne") auto
    from present [OF ok ex] have "TimeLockCollection db' = delete_first ?P ?docs" by simp
    then show "\<forall>d \<in> set (TimeLockCollection db'). StakingTxHashHex d \<noteq> h"
      using delete_first_gone [OF di, of h] by (simp only:)
  qed
  show ?thesis by (intro conjI) (fact c1, fact c2, fact c3, fact c4, fact c5, fact c6, fact c7)
qed

theorem DeleteExpiredDelegation_outcomes_witness:
  "DeleteExpiredDelegation
     \<lparr>TimeLockCollection =
        [\<lparr>StakingTxHashHex = ''bb'', ExpireHeight = 200, DelegationSubState = ''timelock''\<rparr>,
         \<lparr>StakingTxHashHex = ''aa'', ExpireHeight = 100, DelegationSubState = ''timelock''\<rparr>],
      driver_failure = healthy\<rparr> ''aa'' =
     (None,
      \<lparr>TimeLockCollection =
        [\<lparr>StakingTxHashHex = ''bb'', ExpireHeight = 200, DelegationSubState = ''timelock''\<rparr>],
      driver_failure = healthy\<rparr>) \<and>
   DeleteExpiredDelegation
     \<lparr>TimeLockCollection =
        [\<lparr>StakingTxHashHex = ''bb'', ExpireHeight = 200, DelegationSubState = ''timelock''\<rparr>],
      driver_failure = healthy\<rparr> ''aa'' =
     (Some (NoExpiredDelegationFound ''aa''),
      \<lparr>TimeLockCollection =
        [\<lparr>StakingTxHashHex = ''bb'', ExpireHeight = 200, DelegationSubState = ''timelock''\<rparr>],
      driver_failure = healthy\<rparr>)"
proof -
  let ?db = "\<lparr>TimeLockCollection =
        [\<lparr>StakingTxHashHex = ''bb'', ExpireHeight = 200, DelegationSubState = ''timelock''\<rparr>,
         \<lparr>StakingTxHashHex = ''aa'', ExpireHeight = 100, DelegationSubState = ''timelock''\<rparr>],
      driver_failure = healthy\<rparr>"
  let ?db' = "\<lparr>TimeLockCollection =
        [\<lparr>StakingTxHashHex = ''bb'', ExpireHeight = 200, DelegationSubState = ''timelock''\<rparr>],
      driver_failure = healthy\<rparr>"
  have f': "driver_failure ?db' CallDeleteOne = None" by (simp add: healthy_def)
  have n: "\<forall>d \<in> set (TimeLockCollection ?db'). StakingTxHashHex d \<noteq> ''aa''" by simp
  have h1: "DeleteExpiredDelegation ?db ''aa'' = (None, ?db')"
    by (simp add: DeleteExpiredDelegation_def DeleteOne_def healthy_def)
  have h2: "DeleteExpiredDelegation ?db' ''aa'' =
      (fst (DeleteExpiredDelegation ?db' ''aa''), snd (DeleteExpiredDelegation ?db' ''aa''))"
    by simp
  from DeleteExpiredDelegation_outcomes [OF h2, THEN conjunct2, THEN conjunct1] n f' have
    "fst (DeleteExpiredDelegation ?db' ''aa'') = Some (NoExpiredDelegationFound ''aa'') \<and>
     snd (DeleteExpiredDelegation ?db' ''aa'') = ?db'"
    by blast
  then have "DeleteExpiredDelegation ?db' ''aa'' = (Some (NoExpiredDelegationFound ''aa''), ?db')"
    by (simp add: prod_eq_iff)
  with h1 show ?thesis by simp
qed

section \<open>Properties of the conditional state update\<close>

text \<open>
  C2: for every staking transaction hash with a stored record, every list \<open>Q\<close> of
  qualified previous states and every new state, \<open>UpdateBTCDelegationState\<close> applies the
  update exactly when the stored state is in \<open>Q\<close>. When it is, the record under the hash
  gets the new state (and the new substate, if one is given), its other fields and all
  other records staying as they were. When it is not, the call reports the failed
  precondition and the store is unchanged.
\<close>

theorem UpdateBTCDelegationState_conditional:
  assumes "store h = Some r"
    and "UpdateBTCDelegationState store h Q new sub = (res, store')"
  shows "(res = Applied \<longleftrightarrow> state r \<in> set Q) \<and>
         (state r \<in> set Q \<longrightarrow>
            store' h = Some (r\<lparr>state := new,
              subState := (case sub of None \<Rightarrow> subState r | Some ss \<Rightarrow> Some ss)\<rparr>) \<and>
            (\<forall>k. k \<noteq> h \<longrightarrow> store' k = store k)) \<and>
         (state r \<notin> set Q \<longrightarrow> res = PreconditionFailed \<and> store' = store)"
  using assms by (auto simp: UpdateBTCDelegationState_def split: if_splits)

theorem UpdateBTCDelegationState_conditional_witness:
  "[''aa'' \<mapsto> example_delegation] ''aa'' = Some example_delegation \<and>
   UpdateBTCDelegationState [''aa'' \<mapsto> example_delegation] ''aa'' [PENDING] VERIFIED None =
     (Applied, [''aa'' \<mapsto> example_delegation\<lparr>state := VERIFIED\<rparr>]) \<and>
   UpdateBTCDelegationState [''aa'' \<mapsto> example_delegation] ''aa'' [ACTIVE, UNBONDING] SLASHED None =
     (PreconditionFailed, [''aa'' \<mapsto> example_delegation])"
proof -
  let ?st = "[''aa'' \<mapsto> example_delegation]"
  have h: "?st ''aa'' = Some example_delegation" by simp
  have ok: "state example_delegation \<in> set [PENDING]" by (simp add: example_delegation_def)
  have no: "state example_delegation \<notin> set [ACTIVE, UNBONDING]"
    by (simp add: example_delegation_def)
  have 1: "UpdateBTCDelegationState ?st ''aa'' [PENDING] VERIFIED None =
      (Applied, [''aa'' \<mapsto> example_delegation\<lparr>state := VERIFIED\<rparr>])"
    by (simp add: UpdateBTCDelegationState_def example_delegation_def)
  have 2: "UpdateBTCDelegationState ?st ''aa'' [ACTIVE, UNBONDING] SLASHED None =
      (fst (UpdateBTCDelegationState ?st ''aa'' [ACTIVE, UNBONDING] SLASHED None),
       snd (UpdateBTCDelegationState ?st ''aa'' [ACTIVE, UNBONDING] SLASHED None))"
    by simp
  from UpdateBTCDelegationState_conditional [OF h 2] no have
    "fst (UpdateBTCDelegationState ?st ''aa'' [ACTIVE, UNBONDING] SLASHED None) = PreconditionFailed \<and>
     snd (UpdateBTCDelegationState ?st ''aa'' [ACTIVE, UNBONDING] SLASHED None) = ?st"
    by blast
  then have "UpdateBTCDelegationState ?st ''aa'' [ACTIVE, UNBONDING] SLASHED None =
      (PreconditionFailed, ?st)"
    by (simp add: prod_eq_iff)
  with h 1 show ?thesis by simp
qed

end
